theory Spec2Isabelle
  imports Complex_Main
begin

section \<open>Exceptions and deposit strategies\<close>

text \<open>
  The program keeps money in C++ \<^verbatim>\<open>double\<close>s. Amounts are modelled by \<^typ>\<open>real\<close>:
  the comparisons and additions of the source are the exact ones, and rounding,
  infinities and NaN are outside the model. What a function prints is modelled only
  where it is the function's result (the listing); progress and error messages are not.

  A thrown exception is the left summand of a result; \<^verbatim>\<open>InvalidInputException\<close>
  carries its message, \<^verbatim>\<open>NegativeDepositException\<close> has a fixed one.
\<close>

datatype exception = InvalidInputException string | NegativeDepositException

text \<open>The two concrete classes that implement \<^verbatim>\<open>IDeposit\<close>.\<close>

datatype IDeposit = FixedDeposit | NormalDeposit

definition fixed_limit_message :: string where
  "fixed_limit_message =
     ''The maximum deposit amount for the fixed account is 1,000,000. Please deposit less.''"

fun calculateDeposit :: "IDeposit \<Rightarrow> real \<Rightarrow> exception + real" where
  "calculateDeposit FixedDeposit amt =
     (if amt > 1000000 then Inl (InvalidInputException fixed_limit_message)
      else Inr (amt + 100))"
| "calculateDeposit NormalDeposit amt = Inr amt"

section \<open>Validation\<close>

definition validateDepositAmount :: "real \<Rightarrow> exception + unit" where
  "validateDepositAmount amt = (if amt < 0 then Inl NegativeDepositException else Inr ())"

subsection \<open>Character classes\<close>

text \<open>
  \<^verbatim>\<open>std::isalpha\<close> and the other classification functions of the C library, in the
  "C" locale (the program never calls \<^verbatim>\<open>setlocale\<close>) and with ASCII codes. A
  \<^typ>\<open>char\<close> is one byte; bytes from 128 on are in no class.
\<close>

definition isupper :: "char \<Rightarrow> bool" where
  "isupper c = (65 \<le> (of_char c :: nat) \<and> (of_char c :: nat) \<le> 90)"

definition islower :: "char \<Rightarrow> bool" where
  "islower c = (97 \<le> (of_char c :: nat) \<and> (of_char c :: nat) \<le> 122)"

definition isalpha :: "char \<Rightarrow> bool" where
  "isalpha c = (isupper c \<or> islower c)"

definition isdigit :: "char \<Rightarrow> bool" where
  "isdigit c = (48 \<le> (of_char c :: nat) \<and> (of_char c :: nat) \<le> 57)"

definition isxdigit :: "char \<Rightarrow> bool" where
  "isxdigit c =
     (isdigit c \<or> (65 \<le> (of_char c :: nat) \<and> (of_char c :: nat) \<le> 70) \<or>
      (97 \<le> (of_char c :: nat) \<and> (of_char c :: nat) \<le> 102))"

definition isspace :: "char \<Rightarrow> bool" where
  "isspace c =
     ((of_char c :: nat) = 32 \<or> (9 \<le> (of_char c :: nat) \<and> (of_char c :: nat) \<le> 13))"

definition ispunct :: "char \<Rightarrow> bool" where
  "ispunct c =
     (33 \<le> (of_char c :: nat) \<and> (of_char c :: nat) \<le> 126 \<and> \<not> isalpha c \<and> \<not> isdigit c)"

definition toupper :: "char \<Rightarrow> char" where
  "toupper c = (if islower c then char_of ((of_char c :: nat) - 32) else c)"

text \<open>The fifty-two letters, written out: what "alphabetic letter" means for a name.\<close>

definition letters :: string where
  "letters = ''ABCDEFGHIJKLMNOPQRSTUVWXYZabcdefghijklmnopqrstuvwxyz''"

text \<open>The range-for loop of \<^verbatim>\<open>isValidName\<close>, leaving at the first non-letter.\<close>

fun isValidName :: "string \<Rightarrow> bool" where
  "isValidName [] = True"
| "isValidName (c # cs) = (if \<not> isalpha c then False else isValidName cs)"

subsection \<open>The C library's strtod, as far as the end pointer\<close>

text \<open>
  \<^verbatim>\<open>isNumeric\<close> only looks at where \<^verbatim>\<open>strtod\<close> stops. ISO C (7.22.1.3) fixes that:
  the input is white space, then the subject sequence, then the rest; the subject
  sequence is the longest initial part, after the white space, that has the expected
  form; the end pointer is set past it, or to the start of the input when there is none.
  The expected form is an optional sign followed by a decimal number (digits with an
  optional point, optional exponent), a hexadecimal one (\<^verbatim>\<open>0x\<close>, hexadecimal digits
  with an optional point, optional binary exponent), \<^verbatim>\<open>INF\<close> or \<^verbatim>\<open>INFINITY\<close>, or
  \<^verbatim>\<open>NAN\<close> with an optional parenthesised sequence of letters, digits and underscores,
  the words in any case. The decimal point is that of the "C" locale.
\<close>

definition mantissa_form :: "(char \<Rightarrow> bool) \<Rightarrow> string \<Rightarrow> bool" where
  "mantissa_form dig m =
     (case dropWhile dig m of
        [] \<Rightarrow> m \<noteq> []
      | c # fs \<Rightarrow> c = CHR ''.'' \<and> list_all dig fs \<and> (takeWhile dig m \<noteq> [] \<or> fs \<noteq> []))"

definition exponent_form :: "char \<Rightarrow> string \<Rightarrow> bool" where
  "exponent_form e x =
     (case x of
        [] \<Rightarrow> False
      | c # r \<Rightarrow>
          toupper c = e \<and>
          (let ds = (case r of
                       [] \<Rightarrow> []
                     | s # t \<Rightarrow> if s = CHR ''+'' \<or> s = CHR ''-'' then t else r)
           in ds \<noteq> [] \<and> list_all isdigit ds))"

definition significand_exponent_form :: "(char \<Rightarrow> bool) \<Rightarrow> char \<Rightarrow> string \<Rightarrow> bool" where
  "significand_exponent_form dig e b =
     (let m = takeWhile (\<lambda>c. toupper c \<noteq> e) b; x = dropWhile (\<lambda>c. toupper c \<noteq> e) b
      in mantissa_form dig m \<and> (x = [] \<or> exponent_form e x))"

definition decimal_form :: "string \<Rightarrow> bool" where
  "decimal_form b = significand_exponent_form isdigit (CHR ''E'') b"

definition hexadecimal_form :: "string \<Rightarrow> bool" where
  "hexadecimal_form b =
     (case b of
        z # x # r \<Rightarrow>
          z = CHR ''0'' \<and> toupper x = CHR ''X'' \<and>
          significand_exponent_form isxdigit (CHR ''P'') r
      | _ \<Rightarrow> False)"

definition infinity_form :: "string \<Rightarrow> bool" where
  "infinity_form b = (map toupper b = ''INF'' \<or> map toupper b = ''INFINITY'')"

definition n_char :: "char \<Rightarrow> bool" where
  "n_char c = (isdigit c \<or> isalpha c \<or> c = CHR ''_'')"

definition nan_form :: "string \<Rightarrow> bool" where
  "nan_form b =
     (map toupper (take 3 b) = ''NAN'' \<and>
      (case drop 3 b of
         [] \<Rightarrow> True
       | c # r \<Rightarrow> c = CHR ''('' \<and> r \<noteq> [] \<and> last r = CHR '')'' \<and> list_all n_char (butlast r)))"

definition expected_form :: "string \<Rightarrow> bool" where
  "expected_form s =
     (let b = (case s of
                 [] \<Rightarrow> []
               | c # r \<Rightarrow> if c = CHR ''+'' \<or> c = CHR ''-'' then r else s)
      in decimal_form b \<or> hexadecimal_form b \<or> infinity_form b \<or> nan_form b)"

text \<open>The length of the longest initial part of \<open>s\<close>, of at most \<open>k\<close> characters, that
  has the expected form; 0 when there is none.\<close>

fun subject_length :: "string \<Rightarrow> nat \<Rightarrow> nat" where
  "subject_length s 0 = 0"
| "subject_length s (Suc k) =
     (if expected_form (take (Suc k) s) then Suc k else subject_length s k)"

text \<open>How far the end pointer is from the start of the C string \<open>s\<close> (its characters
  before the terminating NUL).\<close>

definition strtod_end :: "string \<Rightarrow> nat" where
  "strtod_end s =
     (let n = subject_length (dropWhile isspace s) (length (dropWhile isspace s))
      in if n = 0 then 0 else length (takeWhile isspace s) + n)"

text \<open>
  \<^verbatim>\<open>str.c_str()\<close> is the array of the string's characters with a NUL after them;
  \<^verbatim>\<open>strtod\<close> reads it as a C string, that is up to its first NUL, and \<^verbatim>\<open>*end\<close> is
  the character of the array at the end pointer.
\<close>

definition isNumeric :: "string \<Rightarrow> bool" where
  "isNumeric str =
     (let buf = str @ [CHR 0x00];
          e = strtod_end (takeWhile (\<lambda>c. c \<noteq> CHR 0x00) buf)
      in e \<noteq> 0 \<and> buf ! e = CHR 0x00)"

text \<open>
  The property the comment in \<^verbatim>\<open>isNumeric\<close> asks for ("the whole string is a
  number"): all of the string, after leading white space, is one number of the expected
  form.
\<close>

definition whole_string_is_number :: "string \<Rightarrow> bool" where
  "whole_string_is_number str = expected_form (dropWhile isspace str)"

section \<open>Identifiers\<close>

text \<open>
  \<^verbatim>\<open>generateRandomID\<close> draws a number uniformly from 100000 to 999999 and prints it in
  decimal after \<^verbatim>\<open>PZ\<close>. The number drawn is the model's argument; nothing else enters
  the result.
\<close>

fun decimal :: "nat \<Rightarrow> string" where
  "decimal n =
     (if n < 10 then [''0123456789'' ! n]
      else decimal (n div 10) @ [''0123456789'' ! (n mod 10)])"

declare decimal.simps [simp del]

definition generateRandomID :: "nat \<Rightarrow> string" where
  "generateRandomID drawn = ''PZ'' @ decimal drawn"

section \<open>Depositors\<close>

record Depositor =
  name :: string
  amount :: real
  depositStrategy :: IDeposit
  depositorID :: string

definition getDepositAmount :: "Depositor \<Rightarrow> exception + real" where
  "getDepositAmount d = calculateDeposit (depositStrategy d) (amount d)"

definition getName :: "Depositor \<Rightarrow> string" where
  "getName d = name d"

definition getID :: "Depositor \<Rightarrow> string" where
  "getID d = depositorID d"

text \<open>
  \<^verbatim>\<open>deposit\<close> changes its object, and can throw: the model returns the outcome
  together with the depositor as the call leaves it. The assignment to \<^verbatim>\<open>amount\<close> comes
  after both calls that can throw.
\<close>

definition deposit :: "real \<Rightarrow> Depositor \<Rightarrow> (exception + unit) \<times> Depositor" where
  "deposit amt d =
     (case validateDepositAmount amt of
        Inl e \<Rightarrow> (Inl e, d)
      | Inr _ \<Rightarrow>
          (case calculateDeposit (depositStrategy d) amt of
             Inl e \<Rightarrow> (Inl e, d)
           | Inr v \<Rightarrow> (Inr (), d\<lparr>amount := amount d + v\<rparr>)))"

section \<open>The bank\<close>

record Bank =
  depositors :: "Depositor list"

definition addDepositor :: "nat \<Rightarrow> string \<Rightarrow> IDeposit \<Rightarrow> Bank \<Rightarrow> Bank" where
  "addDepositor drawn nm strategy bank =
     bank\<lparr>depositors := depositors bank @
       [\<lparr>name = nm, amount = 0, depositStrategy = strategy,
         depositorID = generateRandomID drawn\<rparr>]\<rparr>"

text \<open>
  The loop of \<^verbatim>\<open>depositToAccount\<close> over the vector: it leaves at the first depositor
  with the identifier. The handler catches \<^verbatim>\<open>InvalidInputException\<close> only, so a
  \<^verbatim>\<open>NegativeDepositException\<close> leaves the function.
\<close>

fun depositToAccount_loop ::
  "string \<Rightarrow> real \<Rightarrow> Depositor list \<Rightarrow> (exception + bool) \<times> Depositor list" where
  "depositToAccount_loop ident amt [] = (Inr False, [])"
| "depositToAccount_loop ident amt (d # ds) =
     (if getID d = ident then
        (case deposit amt d of
           (Inr _, d') \<Rightarrow> (Inr True, d' # ds)
         | (Inl (InvalidInputException msg), d') \<Rightarrow> (Inr True, d' # ds)
         | (Inl NegativeDepositException, d') \<Rightarrow> (Inl NegativeDepositException, d' # ds))
      else
        (case depositToAccount_loop ident amt ds of (r, ds') \<Rightarrow> (r, d # ds')))"

definition depositToAccount :: "string \<Rightarrow> real \<Rightarrow> Bank \<Rightarrow> (exception + bool) \<times> Bank" where
  "depositToAccount ident amt bank =
     (case depositToAccount_loop ident amt (depositors bank) of
        (r, ds') \<Rightarrow> (r, bank\<lparr>depositors := ds'\<rparr>))"

text \<open>The loop of \<^verbatim>\<open>calculateTotalDeposits\<close>, with its running total.\<close>

fun calculateTotalDeposits_loop :: "real \<Rightarrow> Depositor list \<Rightarrow> exception + real" where
  "calculateTotalDeposits_loop tot [] = Inr tot"
| "calculateTotalDeposits_loop tot (d # ds) =
     (case getDepositAmount d of
        Inl e \<Rightarrow> Inl e
      | Inr v \<Rightarrow> calculateTotalDeposits_loop (tot + v) ds)"

definition calculateTotalDeposits :: "Bank \<Rightarrow> exception + real" where
  "calculateTotalDeposits bank = calculateTotalDeposits_loop 0 (depositors bank)"

text \<open>What \<^verbatim>\<open>listDepositors\<close> prints: a notice for the empty bank, or one row for each
  depositor. Both methods are \<^verbatim>\<open>const\<close>: they return no new bank.\<close>

datatype listing = NoDepositors | Rows "(string \<times> string \<times> real) list"

fun listDepositors_loop :: "Depositor list \<Rightarrow> exception + (string \<times> string \<times> real) list" where
  "listDepositors_loop [] = Inr []"
| "listDepositors_loop (d # ds) =
     (case getDepositAmount d of
        Inl e \<Rightarrow> Inl e
      | Inr v \<Rightarrow>
          (case listDepositors_loop ds of
             Inl e \<Rightarrow> Inl e
           | Inr rows \<Rightarrow> Inr ((getID d, getName d, v) # rows)))"

definition listDepositors :: "Bank \<Rightarrow> exception + listing" where
  "listDepositors bank =
     (if depositors bank = [] then Inr NoDepositors
      else (case listDepositors_loop (depositors bank) of
              Inl e \<Rightarrow> Inl e
            | Inr rows \<Rightarrow> Inr (Rows rows)))"

text \<open>
  The four calls the menu makes on the bank, and the bank after a call (whether the call
  returned or threw).
\<close>

datatype operation =
    AddDepositor nat string IDeposit
  | DepositToAccount string real
  | CalculateTotalDeposits
  | ListDepositors

fun perform :: "operation \<Rightarrow> Bank \<Rightarrow> Bank" where
  "perform (AddDepositor drawn nm strategy) bank = addDepositor drawn nm strategy bank"
| "perform (DepositToAccount ident amt) bank = snd (depositToAccount ident amt bank)"
| "perform CalculateTotalDeposits bank = bank"
| "perform ListDepositors bank = bank"

section \<open>Example data\<close>

text \<open>A depositor on the fixed plan, a bank in which two depositors drew the same number,
  and a session of calls.\<close>

definition bob :: Depositor where
  "bob = \<lparr>name = ''Bob'', amount = 300, depositStrategy = FixedDeposit,
     depositorID = ''PZ123456''\<rparr>"

definition twins :: Bank where
  "twins =
     addDepositor 555555 ''Carol'' NormalDeposit
       (addDepositor 555555 ''Bob'' FixedDeposit
         (addDepositor 100000 ''Alice'' NormalDeposit \<lparr>depositors = []\<rparr>))"

definition session :: "operation list" where
  "session =
     [AddDepositor 100000 ''Alice'' NormalDeposit,
      DepositToAccount ''PZ123456'' 200,
      CalculateTotalDeposits,
      DepositToAccount ''PZ123456'' 999999999,
      DepositToAccount ''PZ123456'' (- 5),
      ListDepositors,
      DepositToAccount (generateRandomID 100000) 500]"

section \<open>Properties of the strategies and of the amount check\<close>

text \<open>
  C1. For every non-negative amount, the fixed strategy returns the amount plus 100 when
  the amount is at most 1,000,000, and throws \<^verbatim>\<open>InvalidInputException\<close> (the "amount
  too large" error) when it is greater.
\<close>

theorem FixedDeposit_calculateDeposit:
  "0 \<le> a \<Longrightarrow>
   calculateDeposit FixedDeposit a =
     (if a \<le> 1000000 then Inr (a + 100)
      else Inl (InvalidInputException fixed_limit_message))"
  by simp

theorem FixedDeposit_calculateDeposit_witness:
  "(0::real) \<le> 1000000 \<and> calculateDeposit FixedDeposit 1000000 = Inr 1000100 \<and>
   (0::real) \<le> 1000001 \<and>
   calculateDeposit FixedDeposit 1000001 = Inl (InvalidInputException fixed_limit_message)"
  using FixedDeposit_calculateDeposit [of 1000000] FixedDeposit_calculateDeposit [of 1000001]
  by simp

text \<open>
  C6. The amount check throws \<^verbatim>\<open>NegativeDepositException\<close> exactly when the amount
  is below zero; otherwise it returns normally. It is a function of its argument alone, so
  it has no other effect.
\<close>

theorem validateDepositAmount_iff:
  "(validateDepositAmount a = Inl NegativeDepositException) = (a < 0) \<and>
   (validateDepositAmount a = Inr ()) = (\<not> a < 0)"
  by (simp add: validateDepositAmount_def)

section \<open>Names\<close>

lemma isalpha_letters: "isalpha c = (c \<in> set letters)"
  by (cases c) (simp add: isalpha_def isupper_def islower_def letters_def)

lemma isValidName_list_all: "isValidName str = (\<forall>c\<in>set str. isalpha c)"
  by (induction str) auto

lemma not_isalpha_other:
  "isdigit c \<or> isspace c \<or> ispunct c \<Longrightarrow> \<not> isalpha c"
  by (auto simp: isdigit_def isspace_def ispunct_def isalpha_def isupper_def islower_def)

text \<open>
  C7. \<^verbatim>\<open>isValidName\<close> returns true exactly when every character of the string is a
  letter. So it returns false on a string that contains a digit, a white-space character
  or a punctuation character, and true on the empty string.
\<close>

theorem isValidName_letters:
  "isValidName str = (\<forall>c\<in>set str. c \<in> set letters) \<and>
   ((\<exists>c\<in>set str. isdigit c \<or> isspace c \<or> ispunct c) \<longrightarrow> \<not> isValidName str) \<and>
   isValidName []"
  using not_isalpha_other by (auto simp: isValidName_list_all isalpha_letters)

theorem isValidName_letters_witness:
  "isValidName ''Alice'' \<and> (\<exists>c\<in>set ''Al1ce''. isdigit c) \<and> \<not> isValidName ''Al1ce'' \<and>
   (\<exists>c\<in>set ''Al ice''. isspace c) \<and> \<not> isValidName ''Al ice'' \<and>
   (\<exists>c\<in>set ''Alice!''. ispunct c) \<and> \<not> isValidName ''Alice!''"
proof -
  have a: "\<forall>c\<in>set ''Alice''. c \<in> set letters"
    by (simp add: letters_def)
  have d: "\<exists>c\<in>set ''Al1ce''. isdigit c"
    by (simp add: isdigit_def)
  have s: "\<exists>c\<in>set ''Al ice''. isspace c"
    by (simp add: isspace_def)
  have p: "\<exists>c\<in>set ''Alice!''. ispunct c"
    by (simp add: ispunct_def isalpha_def isupper_def islower_def isdigit_def)
  from a isValidName_letters [of "''Alice''"] have "isValidName ''Alice''"
    by blast
  moreover from d isValidName_letters [of "''Al1ce''"] have "\<not> isValidName ''Al1ce''"
    by blast
  moreover from s isValidName_letters [of "''Al ice''"] have "\<not> isValidName ''Al ice''"
    by blast
  moreover from p isValidName_letters [of "''Alice!''"] have "\<not> isValidName ''Alice!''"
    by blast
  ultimately show ?thesis
    using d s p by blast
qed

section \<open>Numeric input\<close>

lemma expected_form_Nil: "\<not> expected_form []"
  by (simp add: expected_form_def decimal_form_def significand_exponent_form_def
      mantissa_form_def hexadecimal_form_def infinity_form_def nan_form_def)

lemma subject_length_le: "subject_length s k \<le> k"
  by (induction k) auto

lemma subject_length_form:
  "subject_length s k \<noteq> 0 \<Longrightarrow> expected_form (take (subject_length s k) s)"
  by (induction k) (auto split: if_splits)

lemma subject_length_full:
  "expected_form (take k s) \<Longrightarrow> subject_length s k = k"
  by (cases k) simp_all

lemma strtod_end_whole:
  "(strtod_end s \<noteq> 0 \<and> strtod_end s = length s) = expected_form (dropWhile isspace s)"
proof
  assume a: "strtod_end s \<noteq> 0 \<and> strtod_end s = length s"
  define r where "r = dropWhile isspace s"
  define n where "n = subject_length r (length r)"
  from a have n0: "n \<noteq> 0"
    by (auto simp: strtod_end_def n_def r_def Let_def split: if_splits)
  with a have "length (takeWhile isspace s) + n = length s"
    by (simp add: strtod_end_def n_def r_def Let_def)
  moreover have "length (takeWhile isspace s) + length r = length s"
    unfolding r_def by (metis length_append takeWhile_dropWhile_id)
  ultimately have "n = length r"
    by simp
  with n0 subject_length_form [of r "length r"] show "expected_form (dropWhile isspace s)"
    by (simp add: n_def r_def)
next
  assume a: "expected_form (dropWhile isspace s)"
  define r where "r = dropWhile isspace s"
  from a have "expected_form r"
    by (simp add: r_def)
  with expected_form_Nil have n: "length r \<noteq> 0"
    by auto
  from a have "subject_length r (length r) = length r"
    by (simp add: subject_length_full r_def)
  with n have e: "strtod_end s = length (takeWhile isspace s) + length r"
    by (simp add: strtod_end_def r_def [symmetric] Let_def)
  have "length (takeWhile isspace s) + length r = length s"
    unfolding r_def by (metis length_append takeWhile_dropWhile_id)
  with n e show "strtod_end s \<noteq> 0 \<and> strtod_end s = length s"
    by linarith
qed

lemma strtod_end_le: "strtod_end s \<le> length s"
proof -
  have "length (takeWhile isspace s) + length (dropWhile isspace s) = length s"
    by (metis length_append takeWhile_dropWhile_id)
  with subject_length_le [of "dropWhile isspace s" "length (dropWhile isspace s)"]
  show ?thesis
    by (simp add: strtod_end_def Let_def)
qed

lemma c_string_of_buffer:
  "takeWhile (\<lambda>c. c \<noteq> CHR 0x00) (str @ [CHR 0x00]) = takeWhile (\<lambda>c. c \<noteq> CHR 0x00) str"
  by (induction str) auto

lemma buffer_nul_at:
  assumes "e \<le> length (takeWhile (\<lambda>c. c \<noteq> CHR 0x00) str)"
  shows "((str @ [CHR 0x00]) ! e = CHR 0x00) = (e = length (takeWhile (\<lambda>c. c \<noteq> CHR 0x00) str))"
  using assms
proof (induction str arbitrary: e)
  case Nil
  then show ?case by simp
next
  case (Cons c str)
  then show ?case
    by (cases e) (auto split: if_splits)
qed

lemma isNumeric_c_string:
  "isNumeric str = whole_string_is_number (takeWhile (\<lambda>c. c \<noteq> CHR 0x00) str)"
proof -
  let ?cs = "takeWhile (\<lambda>c. c \<noteq> CHR 0x00) str"
  have "isNumeric str = (strtod_end ?cs \<noteq> 0 \<and> (str @ [CHR 0x00]) ! strtod_end ?cs = CHR 0x00)"
    by (simp add: isNumeric_def Let_def c_string_of_buffer)
  also have "\<dots> = (strtod_end ?cs \<noteq> 0 \<and> strtod_end ?cs = length ?cs)"
    using buffer_nul_at [OF strtod_end_le [of ?cs]] by simp
  also have "\<dots> = whole_string_is_number ?cs"
    by (simp only: strtod_end_whole whole_string_is_number_def)
  finally show ?thesis .
qed

lemma isNumeric_without_nul:
  "CHR 0x00 \<notin> set str \<Longrightarrow> isNumeric str = whole_string_is_number str"
proof -
  assume "CHR 0x00 \<notin> set str"
  then have t: "takeWhile (\<lambda>c. c \<noteq> CHR 0x00) str = str"
    by (auto simp: takeWhile_eq_all_conv)
  show ?thesis
    by (simp only: isNumeric_c_string t)
qed

text \<open>The three inputs of the specification's examples.\<close>

lemma isNumeric_examples:
  "isNumeric ''12.5''" "\<not> isNumeric ''12.5a''" "\<not> isNumeric []"
  by code_simp+

text \<open>Leading white space is skipped, so such a string is numeric as well.\<close>

lemma isNumeric_leading_space: "isNumeric '' 12.5''"
  by code_simp

text \<open>
  C8. \<^verbatim>\<open>isNumeric\<close> is meant to return true exactly when the entire string parses as a
  floating-point number, with no character left over. \<^verbatim>\<open>strtod\<close> reads the C string,
  which ends at the first NUL, and \<^verbatim>\<open>*end\<close> is then that NUL: on the three-character
  string \<^verbatim>\<open>1\<close>, NUL, \<^verbatim>\<open>a\<close> the function returns true although the whole string is not
  a number. (By \<open>isNumeric_without_nul\<close> a NUL inside the string is the only way for
  the two to differ.)
\<close>

theorem isNumeric_embedded_nul:
  "isNumeric [CHR ''1'', CHR 0x00, CHR ''a''] \<and>
   \<not> whole_string_is_number [CHR ''1'', CHR 0x00, CHR ''a'']"
  by code_simp

section \<open>Deposits on one depositor\<close>

lemma getDepositAmount_error:
  "getDepositAmount d = Inl e \<Longrightarrow> e = InvalidInputException fixed_limit_message"
  by (cases "depositStrategy d") (auto simp: getDepositAmount_def split: if_splits)

lemma deposit_cases:
  "deposit amt d = (Inl NegativeDepositException, d) \<and> amt < 0 \<or>
   deposit amt d = (Inl (InvalidInputException fixed_limit_message), d) \<and> 0 \<le> amt \<and>
     calculateDeposit (depositStrategy d) amt = Inl (InvalidInputException fixed_limit_message) \<or>
   (\<exists>v. deposit amt d = (Inr (), d\<lparr>amount := amount d + v\<rparr>) \<and> 0 \<le> amt \<and> amt \<le> v \<and>
     calculateDeposit (depositStrategy d) amt = Inr v)"
  by (cases "depositStrategy d")
    (auto simp: deposit_def validateDepositAmount_def)

lemma deposit_only_amount: "\<exists>v. snd (deposit amt d) = d\<lparr>amount := v\<rparr> \<and> amount d \<le> v"
  using deposit_cases [of amt d] by (cases d) auto

text \<open>
  C2. \<^verbatim>\<open>deposit\<close> throws \<^verbatim>\<open>NegativeDepositException\<close> on a negative amount; otherwise
  it asks the strategy, which may throw \<^verbatim>\<open>InvalidInputException\<close> (the only exception
  a strategy throws); only when the strategy returns is its result added to the
  depositor's amount. When either step throws, the depositor is left exactly as it was.
\<close>

theorem deposit_effect:
  "deposit a d =
     (if a < 0 then (Inl NegativeDepositException, d)
      else (case calculateDeposit (depositStrategy d) a of
              Inl e \<Rightarrow> (Inl e, d)
            | Inr v \<Rightarrow> (Inr (), d\<lparr>amount := amount d + v\<rparr>))) \<and>
   (\<forall>e. fst (deposit a d) = Inl e \<longrightarrow> snd (deposit a d) = d) \<and>
   (\<forall>e. calculateDeposit (depositStrategy d) a = Inl e \<longrightarrow>
      e = InvalidInputException fixed_limit_message)"
  by (cases "depositStrategy d")
    (auto simp: deposit_def validateDepositAmount_def split: sum.splits)

theorem deposit_effect_witness:
  "fst (deposit (- 1) bob) = Inl NegativeDepositException \<and> snd (deposit (- 1) bob) = bob \<and>
   fst (deposit 2000000 bob) = Inl (InvalidInputException fixed_limit_message) \<and>
   snd (deposit 2000000 bob) = bob \<and>
   deposit 200 bob = (Inr (), bob\<lparr>amount := 600\<rparr>)"
proof -
  have s: "depositStrategy bob = FixedDeposit" and a: "amount bob = 300"
    by (simp_all add: bob_def)
  from deposit_effect [of "- 1" bob]
  have n: "fst (deposit (- 1) bob) = Inl NegativeDepositException"
    by simp
  with deposit_effect [of "- 1" bob] have "snd (deposit (- 1) bob) = bob"
    by blast
  moreover from deposit_effect [of 2000000 bob] s
  have l: "fst (deposit 2000000 bob) = Inl (InvalidInputException fixed_limit_message)"
    by simp
  with deposit_effect [of 2000000 bob] have "snd (deposit 2000000 bob) = bob"
    by blast
  moreover from deposit_effect [of 200 bob] s a
  have "deposit 200 bob = (Inr (), bob\<lparr>amount := 600\<rparr>)"
    by simp
  ultimately show ?thesis
    using n l by blast
qed

section \<open>Deposits through the bank\<close>

lemma depositToAccount_loop_result:
  "fst (depositToAccount_loop ident amt ds) =
     (if \<exists>d\<in>set ds. getID d = ident
      then (if amt < 0 then Inl NegativeDepositException else Inr True)
      else Inr False)"
proof (induction ds)
  case Nil
  show ?case by simp
next
  case (Cons d ds)
  show ?case
  proof (cases "getID d = ident")
    case True
    with deposit_cases [of amt d] show ?thesis
      by auto
  next
    case False
    with Cons.IH show ?thesis
      by (simp add: case_prod_beta)
  qed
qed

lemma depositToAccount_loop_state:
  "snd (depositToAccount_loop ident amt ds) =
     (let k = length (takeWhile (\<lambda>d. getID d \<noteq> ident) ds)
      in if k < length ds then ds[k := snd (deposit amt (ds ! k))] else ds)"
proof (induction ds)
  case Nil
  show ?case by simp
next
  case (Cons d ds)
  show ?case
  proof (cases "getID d = ident")
    case True
    with deposit_cases [of amt d] show ?thesis
      by auto
  next
    case False
    with Cons.IH show ?thesis
      by (simp add: Let_def case_prod_beta)
  qed
qed

lemma first_match_index:
  "(\<forall>i<length (takeWhile (\<lambda>d. getID d \<noteq> ident) ds). getID (ds ! i) \<noteq> ident) \<and>
   (length (takeWhile (\<lambda>d. getID d \<noteq> ident) ds) < length ds \<longrightarrow>
      getID (ds ! length (takeWhile (\<lambda>d. getID d \<noteq> ident) ds)) = ident)"
proof (intro conjI allI impI)
  fix i assume "i < length (takeWhile (\<lambda>d. getID d \<noteq> ident) ds)"
  then show "getID (ds ! i) \<noteq> ident"
    using nth_mem [of i "takeWhile (\<lambda>d. getID d \<noteq> ident) ds"]
    by (auto simp: takeWhile_nth dest: set_takeWhileD)
next
  assume "length (takeWhile (\<lambda>d. getID d \<noteq> ident) ds) < length ds"
  then show "getID (ds ! length (takeWhile (\<lambda>d. getID d \<noteq> ident) ds)) = ident"
    using nth_length_takeWhile [of "\<lambda>d. getID d \<noteq> ident" ds] by simp
qed

lemma first_match_in_range:
  "(length (takeWhile (\<lambda>d. getID d \<noteq> ident) ds) < length ds) = (\<exists>d\<in>set ds. getID d = ident)"
  by (induction ds) auto

lemma depositToAccount_fst:
  "fst (depositToAccount ident amt bank) = fst (depositToAccount_loop ident amt (depositors bank))"
  by (simp add: depositToAccount_def case_prod_beta)

lemma depositToAccount_snd:
  "snd (depositToAccount ident amt bank) =
     bank\<lparr>depositors := snd (depositToAccount_loop ident amt (depositors bank))\<rparr>"
  by (simp add: depositToAccount_def case_prod_beta)

lemma find_first_match:
  "find (\<lambda>d. getID d = ident) ds = Some d \<Longrightarrow>
   length (takeWhile (\<lambda>d. getID d \<noteq> ident) ds) < length ds \<and>
   ds ! length (takeWhile (\<lambda>d. getID d \<noteq> ident) ds) = d"
  by (induction ds) (auto split: if_splits)

lemma depositToAccount_loop_no_match:
  "\<forall>d\<in>set ds. getID d \<noteq> ident \<Longrightarrow> snd (depositToAccount_loop ident amt ds) = ds"
  by (simp add: depositToAccount_loop_state first_match_in_range)

lemma depositToAccount_loop_failed:
  assumes "find (\<lambda>d. getID d = ident) ds = Some d"
    and "amt < 0 \<or> (\<exists>e. calculateDeposit (depositStrategy d) amt = Inl e)"
  shows "snd (depositToAccount_loop ident amt ds) = ds"
proof -
  define k where "k = length (takeWhile (\<lambda>d. getID d \<noteq> ident) ds)"
  from assms(1) have k: "k < length ds" and d: "ds ! k = d"
    using find_first_match [of ident ds d] by (simp_all add: k_def)
  have "snd (deposit amt d) = d"
    using assms(2) deposit_cases [of amt d] by auto
  with k d show ?thesis
    by (simp add: depositToAccount_loop_state k_def [symmetric] list_update_same_conv)
qed

lemma depositToAccount_loop_negative:
  assumes "amt < 0"
  shows "snd (depositToAccount_loop ident amt ds) = ds"
proof (cases "find (\<lambda>d. getID d = ident) ds")
  case None
  then show ?thesis
    by (simp add: depositToAccount_loop_no_match find_None_iff)
next
  case (Some d)
  with assms show ?thesis
    by (simp add: depositToAccount_loop_failed)
qed

text \<open>
  C3, as the code has it. \<^verbatim>\<open>depositToAccount\<close> returns false when no depositor has the
  identifier, and true when one has it and the amount is not negative. When the strategy
  of the first depositor with the identifier rejects the amount, the exception is caught:
  the call returns true and the bank is unchanged. A negative amount for an identifier
  that is present is not caught: \<^verbatim>\<open>NegativeDepositException\<close> leaves the function, and
  the bank is unchanged.
\<close>

theorem depositToAccount_found:
  "fst (depositToAccount ident amt bank) =
     (if \<exists>d\<in>set (depositors bank). getID d = ident
      then (if amt < 0 then Inl NegativeDepositException else Inr True)
      else Inr False) \<and>
   (0 \<le> amt \<and> find (\<lambda>d. getID d = ident) (depositors bank) = Some d \<and>
    calculateDeposit (depositStrategy d) amt = Inl e \<longrightarrow>
    depositToAccount ident amt bank = (Inr True, bank)) \<and>
   (amt < 0 \<or> (\<forall>d\<in>set (depositors bank). getID d \<noteq> ident) \<longrightarrow>
    snd (depositToAccount ident amt bank) = bank)"
proof (intro conjI impI)
  show "fst (depositToAccount ident amt bank) =
     (if \<exists>d\<in>set (depositors bank). getID d = ident
      then (if amt < 0 then Inl NegativeDepositException else Inr True)
      else Inr False)"
    by (simp only: depositToAccount_fst depositToAccount_loop_result)
next
  assume a: "0 \<le> amt \<and> find (\<lambda>d. getID d = ident) (depositors bank) = Some d \<and>
    calculateDeposit (depositStrategy d) amt = Inl e"
  then have "snd (depositToAccount_loop ident amt (depositors bank)) = depositors bank"
    by (intro depositToAccount_loop_failed [of ident _ d]) auto
  moreover from a have "\<exists>d\<in>set (depositors bank). getID d = ident"
    by (auto simp: find_Some_iff)
  with a have "fst (depositToAccount_loop ident amt (depositors bank)) = Inr True"
    by (simp add: depositToAccount_loop_result)
  ultimately show "depositToAccount ident amt bank = (Inr True, bank)"
    by (simp add: prod_eq_iff depositToAccount_fst depositToAccount_snd)
next
  assume "amt < 0 \<or> (\<forall>d\<in>set (depositors bank). getID d \<noteq> ident)"
  then have "snd (depositToAccount_loop ident amt (depositors bank)) = depositors bank"
    using depositToAccount_loop_negative depositToAccount_loop_no_match by blast
  then show "snd (depositToAccount ident amt bank) = bank"
    by (simp add: depositToAccount_snd)
qed

text \<open>
  The sentence "returns true if and only if some account has the identifier", for every
  amount, fails: the identifier is present, the amount is negative, and the call throws
  instead of returning true.
\<close>

theorem depositToAccount_negative_counterexample:
  "(\<exists>d\<in>set (depositors \<lparr>depositors = [bob]\<rparr>). getID d = ''PZ123456'') \<and>
   fst (depositToAccount ''PZ123456'' (- 1) \<lparr>depositors = [bob]\<rparr>) = Inl NegativeDepositException \<and>
   fst (depositToAccount ''PZ123456'' (- 1) \<lparr>depositors = [bob]\<rparr>) \<noteq> Inr True"
  by (simp add: depositToAccount_def deposit_def validateDepositAmount_def getID_def bob_def)

theorem depositToAccount_found_witness:
  "depositToAccount ''PZ123456'' 999999999 \<lparr>depositors = [bob]\<rparr> =
     (Inr True, \<lparr>depositors = [bob]\<rparr>) \<and>
   depositToAccount ''PZ000000'' 10 \<lparr>depositors = [bob]\<rparr> =
     (Inr False, \<lparr>depositors = [bob]\<rparr>) \<and>
   depositToAccount ''PZ123456'' (- 1) \<lparr>depositors = [bob]\<rparr> =
     (Inl NegativeDepositException, \<lparr>depositors = [bob]\<rparr>) \<and>
   fst (depositToAccount ''PZ123456'' 200 \<lparr>depositors = [bob]\<rparr>) = Inr True"
proof -
  let ?b = "\<lparr>depositors = [bob]\<rparr>"
  have id: "getID bob = ''PZ123456''" and st: "depositStrategy bob = FixedDeposit"
    by (simp_all add: getID_def bob_def)
  have "depositToAccount ''PZ123456'' 999999999 ?b = (Inr True, ?b)"
    using depositToAccount_found [of "''PZ123456''" 999999999 ?b bob] id st by simp
  moreover have "depositToAccount ''PZ000000'' 10 ?b = (Inr False, ?b)"
    using depositToAccount_found [of "''PZ000000''" 10 ?b] id by (simp add: prod_eq_iff)
  moreover have "depositToAccount ''PZ123456'' (- 1) ?b = (Inl NegativeDepositException, ?b)"
    using depositToAccount_found [of "''PZ123456''" "- 1" ?b] id by (simp add: prod_eq_iff)
  moreover have "fst (depositToAccount ''PZ123456'' 200 ?b) = Inr True"
    using depositToAccount_found [of "''PZ123456''" 200 ?b] id by simp
  ultimately show ?thesis
    by blast
qed

text \<open>The identifier for a number drawn: \<^verbatim>\<open>PZ\<close> and its decimal digits.\<close>

lemma generateRandomID_example: "generateRandomID 123456 = ''PZ123456''"
  by (simp add: generateRandomID_def decimal.simps)

lemma depositToAccount_loop_shape:
  "length (snd (depositToAccount_loop ident amt ds)) = length ds \<and>
   (\<forall>i<length ds. i \<noteq> length (takeWhile (\<lambda>d. getID d \<noteq> ident) ds) \<longrightarrow>
      snd (depositToAccount_loop ident amt ds) ! i = ds ! i) \<and>
   (\<forall>i<length ds. \<exists>v. snd (depositToAccount_loop ident amt ds) ! i = (ds ! i)\<lparr>amount := v\<rparr> \<and>
      amount (ds ! i) \<le> v)"
proof -
  define k where "k = length (takeWhile (\<lambda>d. getID d \<noteq> ident) ds)"
  have s: "snd (depositToAccount_loop ident amt ds) =
      (if k < length ds then ds[k := snd (deposit amt (ds ! k))] else ds)"
    by (simp add: depositToAccount_loop_state k_def Let_def)
  have same: "\<exists>v. d = d\<lparr>amount := v\<rparr> \<and> amount d \<le> v" for d :: Depositor
    by (rule exI [of _ "amount d"]) simp
  have "\<exists>v. snd (depositToAccount_loop ident amt ds) ! i = (ds ! i)\<lparr>amount := v\<rparr> \<and>
      amount (ds ! i) \<le> v" if "i < length ds" for i
  proof (cases "k < length ds \<and> i = k")
    case True
    with s deposit_only_amount [of amt "ds ! k"] show ?thesis
      by simp
  next
    case False
    with s that have "snd (depositToAccount_loop ident amt ds) ! i = ds ! i"
      by auto
    with same [of "ds ! i"] show ?thesis
      by simp
  qed
  moreover have "length (snd (depositToAccount_loop ident amt ds)) = length ds"
    using s by simp
  moreover have "\<forall>i<length ds. i \<noteq> k \<longrightarrow> snd (depositToAccount_loop ident amt ds) ! i = ds ! i"
    using s by simp
  ultimately show ?thesis
    unfolding k_def by blast
qed

text \<open>
  C10. \<^verbatim>\<open>depositToAccount\<close> keeps the number and the order of the depositors; every
  depositor but the one at the position of the first match is identical before and
  after; at every position only the amount can differ; that position is the first with
  the identifier (no earlier one has it); and nothing else of the bank changes. The bank may hold the identifier
  several times.
\<close>

theorem depositToAccount_frame:
  "length (depositors (snd (depositToAccount ident amt bank))) = length (depositors bank) \<and>
   (\<forall>i<length (depositors bank).
      i \<noteq> length (takeWhile (\<lambda>d. getID d \<noteq> ident) (depositors bank)) \<longrightarrow>
      depositors (snd (depositToAccount ident amt bank)) ! i = depositors bank ! i) \<and>
   (\<forall>i<length (depositors bank).
      \<exists>v. depositors (snd (depositToAccount ident amt bank)) ! i =
        (depositors bank ! i)\<lparr>amount := v\<rparr>) \<and>
   (\<forall>i<length (takeWhile (\<lambda>d. getID d \<noteq> ident) (depositors bank)).
      getID (depositors bank ! i) \<noteq> ident) \<and>
   (length (takeWhile (\<lambda>d. getID d \<noteq> ident) (depositors bank)) < length (depositors bank) \<longrightarrow>
      getID (depositors bank ! length (takeWhile (\<lambda>d. getID d \<noteq> ident) (depositors bank))) =
        ident) \<and>
   snd (depositToAccount ident amt bank) =
     bank\<lparr>depositors := depositors (snd (depositToAccount ident amt bank))\<rparr>"
proof -
  have d: "depositors (snd (depositToAccount ident amt bank)) =
      snd (depositToAccount_loop ident amt (depositors bank))"
    by (simp add: depositToAccount_snd)
  show ?thesis
    unfolding d
    using depositToAccount_loop_shape [of ident amt "depositors bank"]
      first_match_index [of ident "depositors bank"]
    by (simp add: depositToAccount_snd) blast
qed

theorem depositToAccount_frame_witness:
  "map depositorID (depositors twins) =
     [generateRandomID 100000, generateRandomID 555555, generateRandomID 555555] \<and>
   length (takeWhile (\<lambda>d. getID d \<noteq> generateRandomID 555555) (depositors twins)) = 1 \<and>
   depositors (snd (depositToAccount (generateRandomID 555555) 200 twins)) ! 0 =
     depositors twins ! 0 \<and>
   depositors (snd (depositToAccount (generateRandomID 555555) 200 twins)) ! 2 =
     depositors twins ! 2 \<and>
   map amount (depositors (snd (depositToAccount (generateRandomID 555555) 200 twins))) =
     [0, 300, 0]"
proof -
  have ne: "generateRandomID 100000 \<noteq> generateRandomID 555555"
    by (simp add: generateRandomID_def decimal.simps)
  have ids: "map depositorID (depositors twins) =
     [generateRandomID 100000, generateRandomID 555555, generateRandomID 555555]"
    by (simp add: twins_def addDepositor_def)
  have k: "length (takeWhile (\<lambda>d. getID d \<noteq> generateRandomID 555555) (depositors twins)) = 1"
    using ne by (simp add: twins_def addDepositor_def getID_def)
  have len: "length (depositors twins) = 3"
    by (simp add: twins_def addDepositor_def)
  have a: "map amount (depositors (snd (depositToAccount (generateRandomID 555555) 200 twins))) =
     [0, 300, 0]"
    using ne
    by (simp add: twins_def addDepositor_def depositToAccount_def getID_def deposit_def
        validateDepositAmount_def)
  from depositToAccount_frame [of "generateRandomID 555555" 200 twins] k len
  have "depositors (snd (depositToAccount (generateRandomID 555555) 200 twins)) ! 0 =
      depositors twins ! 0"
    and "depositors (snd (depositToAccount (generateRandomID 555555) 200 twins)) ! 2 =
      depositors twins ! 2"
    by simp_all
  with ids k a show ?thesis
    by blast
qed

section \<open>The fixed-plan scenario\<close>

lemma depositToAccount_loop_append_new:
  assumes "\<forall>d\<in>set ds. getID d \<noteq> ident" and "getID n = ident"
  shows "depositToAccount_loop ident amt (ds @ [n]) =
     (case deposit amt n of
        (Inr u, n') \<Rightarrow> (Inr True, ds @ [n'])
      | (Inl (InvalidInputException msg), n') \<Rightarrow> (Inr True, ds @ [n'])
      | (Inl NegativeDepositException, n') \<Rightarrow> (Inl NegativeDepositException, ds @ [n']))"
  using assms by (induction ds) (auto split: prod.splits sum.splits exception.splits)

text \<open>
  C4, as the code has it. A depositor is added on the fixed plan under an identifier no
  other depositor has, and 200 is deposited to that identifier: the call returns true,
  the new depositor's amount is 300 (the strategy's result for 200, added to 0), the rest
  of the bank is unchanged, and \<^verbatim>\<open>getDepositAmount\<close> applies the strategy again, to 300,
  which gives 400.
\<close>

theorem fixed_deposit_scenario:
  "\<forall>d\<in>set (depositors bank). getID d \<noteq> generateRandomID drawn \<Longrightarrow>
   depositToAccount (generateRandomID drawn) 200 (addDepositor drawn nm FixedDeposit bank) =
     (Inr True,
      bank\<lparr>depositors := depositors bank @
        [\<lparr>name = nm, amount = 300, depositStrategy = FixedDeposit,
          depositorID = generateRandomID drawn\<rparr>]\<rparr>) \<and>
   getDepositAmount \<lparr>name = nm, amount = 300, depositStrategy = FixedDeposit,
       depositorID = generateRandomID drawn\<rparr> = calculateDeposit FixedDeposit 300 \<and>
   calculateDeposit FixedDeposit 300 = Inr 400"
  by (simp add: depositToAccount_def addDepositor_def depositToAccount_loop_append_new
      getID_def deposit_def validateDepositAmount_def getDepositAmount_def)

text \<open>
  In that scenario on the empty bank the deposit returns true and the amount afterwards
  is 300, not 200.
\<close>

theorem fixed_deposit_scenario_counterexample:
  "fst (depositToAccount (generateRandomID 123456) 200
         (addDepositor 123456 ''Bob'' FixedDeposit \<lparr>depositors = []\<rparr>)) = Inr True \<and>
   map amount (depositors (snd (depositToAccount (generateRandomID 123456) 200
         (addDepositor 123456 ''Bob'' FixedDeposit \<lparr>depositors = []\<rparr>)))) = [300] \<and>
   map amount (depositors (snd (depositToAccount (generateRandomID 123456) 200
         (addDepositor 123456 ''Bob'' FixedDeposit \<lparr>depositors = []\<rparr>)))) \<noteq> [200]"
  by (simp add: depositToAccount_def addDepositor_def getID_def deposit_def
      validateDepositAmount_def)

theorem fixed_deposit_scenario_witness:
  "depositToAccount (generateRandomID 555555) 200
       (addDepositor 555555 ''Bob'' FixedDeposit \<lparr>depositors = [bob]\<rparr>) =
     (Inr True,
      \<lparr>depositors = [bob, \<lparr>name = ''Bob'', amount = 300, depositStrategy = FixedDeposit,
          depositorID = generateRandomID 555555\<rparr>]\<rparr>)"
proof -
  have "\<forall>d\<in>set (depositors \<lparr>depositors = [bob]\<rparr>). getID d \<noteq> generateRandomID 555555"
    by (simp add: getID_def bob_def generateRandomID_def decimal.simps)
  with fixed_deposit_scenario [of "\<lparr>depositors = [bob]\<rparr>" 555555 "''Bob''"]
  show ?thesis
    by simp
qed

section \<open>Totals\<close>

lemma calculateTotalDeposits_loop_sum:
  "calculateTotalDeposits_loop tot ds =
     (case find (\<lambda>d. isl (getDepositAmount d)) ds of
        None \<Rightarrow> Inr (tot + (\<Sum>d\<leftarrow>ds. projr (getDepositAmount d)))
      | Some d \<Rightarrow> Inl (projl (getDepositAmount d)))"
proof (induction ds arbitrary: tot)
  case Nil
  show ?case by simp
next
  case (Cons d ds)
  show ?case
  proof (cases "getDepositAmount d")
    case (Inl e)
    then show ?thesis by simp
  next
    case (Inr v)
    then show ?thesis
      by (simp add: Cons.IH add.assoc split: option.splits)
  qed
qed

text \<open>
  C5. \<^verbatim>\<open>getDepositAmount\<close> is the strategy applied to the stored amount. When it
  returns for every depositor, \<^verbatim>\<open>calculateTotalDeposits\<close> returns the sum of these
  values over the depositors; when it throws for some depositor, the total throws that
  exception and returns no number.
\<close>

theorem calculateTotalDeposits_sum:
  "getDepositAmount d = calculateDeposit (depositStrategy d) (amount d) \<and>
   ((\<forall>d\<in>set (depositors bank). \<exists>v. getDepositAmount d = Inr v) \<longrightarrow>
      calculateTotalDeposits bank =
        Inr (\<Sum>d\<leftarrow>depositors bank. projr (getDepositAmount d))) \<and>
   ((\<exists>d\<in>set (depositors bank). \<exists>e. getDepositAmount d = Inl e) \<longrightarrow>
      (\<exists>d\<in>set (depositors bank). \<exists>e. getDepositAmount d = Inl e \<and>
         calculateTotalDeposits bank = Inl e))"
proof (intro conjI impI)
  show "getDepositAmount d = calculateDeposit (depositStrategy d) (amount d)"
    by (simp add: getDepositAmount_def)
next
  assume "\<forall>d\<in>set (depositors bank). \<exists>v. getDepositAmount d = Inr v"
  then have "find (\<lambda>d. isl (getDepositAmount d)) (depositors bank) = None"
    by (auto simp: find_None_iff)
  then show "calculateTotalDeposits bank =
      Inr (\<Sum>d\<leftarrow>depositors bank. projr (getDepositAmount d))"
    by (simp add: calculateTotalDeposits_def calculateTotalDeposits_loop_sum)
next
  assume "\<exists>d\<in>set (depositors bank). \<exists>e. getDepositAmount d = Inl e"
  then have "find (\<lambda>d. isl (getDepositAmount d)) (depositors bank) \<noteq> None"
    by (auto simp: find_None_iff)
  then obtain x where x: "find (\<lambda>d. isl (getDepositAmount d)) (depositors bank) = Some x"
    by blast
  then have mem: "x \<in> set (depositors bank)" and "isl (getDepositAmount x)"
    by (auto simp: find_Some_iff)
  then obtain e where e: "getDepositAmount x = Inl e"
    by (cases "getDepositAmount x") simp_all
  with x have "calculateTotalDeposits bank = Inl e"
    by (simp add: calculateTotalDeposits_def calculateTotalDeposits_loop_sum)
  with mem e show "\<exists>d\<in>set (depositors bank). \<exists>e. getDepositAmount d = Inl e \<and>
         calculateTotalDeposits bank = Inl e"
    by blast
qed

theorem calculateTotalDeposits_sum_witness:
  "calculateTotalDeposits \<lparr>depositors = [bob, bob\<lparr>depositStrategy := NormalDeposit\<rparr>]\<rparr> =
     Inr 700 \<and>
   calculateTotalDeposits \<lparr>depositors = [bob, bob\<lparr>amount := 2000000\<rparr>]\<rparr> =
     Inl (InvalidInputException fixed_limit_message)"
proof -
  let ?good = "\<lparr>depositors = [bob, bob\<lparr>depositStrategy := NormalDeposit\<rparr>]\<rparr>"
  let ?bad = "\<lparr>depositors = [bob, bob\<lparr>amount := 2000000\<rparr>]\<rparr>"
  have "\<forall>d\<in>set (depositors ?good). \<exists>v. getDepositAmount d = Inr v"
    by (simp add: getDepositAmount_def bob_def)
  with calculateTotalDeposits_sum [of _ ?good]
  have "calculateTotalDeposits ?good =
      Inr (\<Sum>d\<leftarrow>depositors ?good. projr (getDepositAmount d))"
    by blast
  then have g: "calculateTotalDeposits ?good = Inr 700"
    by (simp add: getDepositAmount_def bob_def)
  have "\<exists>d\<in>set (depositors ?bad). \<exists>e. getDepositAmount d = Inl e"
    by (simp add: getDepositAmount_def bob_def)
  with calculateTotalDeposits_sum [of _ ?bad]
  obtain d e where "getDepositAmount d = Inl e" and "calculateTotalDeposits ?bad = Inl e"
    by blast
  with getDepositAmount_error [of d e]
  have "calculateTotalDeposits ?bad = Inl (InvalidInputException fixed_limit_message)"
    by simp
  with g show ?thesis
    by blast
qed

section \<open>Balances over a session\<close>

lemma perform_step:
  "length (depositors bank) \<le> length (depositors (perform op bank)) \<and>
   (\<forall>i<length (depositors bank).
      depositorID (depositors (perform op bank) ! i) = depositorID (depositors bank ! i) \<and>
      amount (depositors bank ! i) \<le> amount (depositors (perform op bank) ! i))"
proof (cases op)
  case (AddDepositor drawn nm strategy)
  then show ?thesis
    by (simp add: addDepositor_def nth_append)
next
  case (DepositToAccount ident amt)
  have "depositorID (snd (depositToAccount_loop ident amt (depositors bank)) ! i) =
        depositorID (depositors bank ! i) \<and>
      amount (depositors bank ! i) \<le>
        amount (snd (depositToAccount_loop ident amt (depositors bank)) ! i)"
    if "i < length (depositors bank)" for i
  proof -
    from that depositToAccount_loop_shape [of ident amt "depositors bank"]
    obtain v where "snd (depositToAccount_loop ident amt (depositors bank)) ! i =
        (depositors bank ! i)\<lparr>amount := v\<rparr>" and "amount (depositors bank ! i) \<le> v"
      by blast
    then show ?thesis
      by simp
  qed
  with DepositToAccount depositToAccount_loop_shape [of ident amt "depositors bank"]
  show ?thesis
    by (simp add: depositToAccount_snd)
next
  case CalculateTotalDeposits
  then show ?thesis by simp
next
  case ListDepositors
  then show ?thesis by simp
qed

lemma fold_perform_grows:
  "length (depositors bank) \<le> length (depositors (fold perform ops bank)) \<and>
   (\<forall>i<length (depositors bank).
      depositorID (depositors (fold perform ops bank) ! i) = depositorID (depositors bank ! i) \<and>
      amount (depositors bank ! i) \<le> amount (depositors (fold perform ops bank) ! i))"
proof (induction ops arbitrary: bank)
  case Nil
  show ?case by simp
next
  case (Cons op ops)
  note step = perform_step [of bank op]
  note rest = Cons.IH [of "perform op bank"]
  have "depositorID (depositors (fold perform ops (perform op bank)) ! i) =
        depositorID (depositors bank ! i) \<and>
      amount (depositors bank ! i) \<le>
        amount (depositors (fold perform ops (perform op bank)) ! i)"
    if "i < length (depositors bank)" for i
  proof -
    from that step have i: "i < length (depositors (perform op bank))"
      by simp
    from step that have "depositorID (depositors (perform op bank) ! i) =
        depositorID (depositors bank ! i)"
      and "amount (depositors bank ! i) \<le> amount (depositors (perform op bank) ! i)"
      by simp_all
    moreover from rest i have "depositorID (depositors (fold perform ops (perform op bank)) ! i) =
        depositorID (depositors (perform op bank) ! i)"
      and "amount (depositors (perform op bank) ! i) \<le>
        amount (depositors (fold perform ops (perform op bank)) ! i)"
      by simp_all
    ultimately show ?thesis
      by simp
  qed
  moreover from step rest
  have "length (depositors bank) \<le> length (depositors (fold perform ops (perform op bank)))"
    by linarith
  ultimately show ?case
    by simp
qed

text \<open>
  C9. A depositor is created with amount 0; \<^verbatim>\<open>deposit\<close> never lowers an amount; and
  over every sequence of calls on the bank (adding a depositor, depositing, totalling,
  listing) every depositor present at the start is still at its position, under the same
  identifier, with an amount at least as large.
\<close>

theorem balance_never_decreases:
  "amount (last (depositors (addDepositor drawn nm strategy bank))) = 0 \<and>
   amount d \<le> amount (snd (deposit amt d)) \<and>
   length (depositors bank) \<le> length (depositors (fold perform ops bank)) \<and>
   (\<forall>i<length (depositors bank).
      depositorID (depositors (fold perform ops bank) ! i) = depositorID (depositors bank ! i) \<and>
      amount (depositors bank ! i) \<le> amount (depositors (fold perform ops bank) ! i))"
proof -
  have "amount (last (depositors (addDepositor drawn nm strategy bank))) = 0"
    by (simp add: addDepositor_def)
  moreover have "amount d \<le> amount (snd (deposit amt d))"
    using deposit_only_amount [of amt d] by auto
  ultimately show ?thesis
    using fold_perform_grows [of bank ops] by blast
qed

theorem balance_never_decreases_witness:
  "0 < length (depositors \<lparr>depositors = [bob]\<rparr>) \<and>
   amount (depositors \<lparr>depositors = [bob]\<rparr> ! 0) \<le>
     amount (depositors (fold perform session \<lparr>depositors = [bob]\<rparr>) ! 0) \<and>
   map amount (depositors (fold perform session \<lparr>depositors = [bob]\<rparr>)) = [600, 500]"
proof -
  have ne: "generateRandomID 100000 \<noteq> ''PZ123456''"
    by (simp add: generateRandomID_def decimal.simps)
  have "map amount (depositors (fold perform session \<lparr>depositors = [bob]\<rparr>)) = [600, 500]"
    using ne
    by (simp add: session_def bob_def addDepositor_def depositToAccount_def getID_def
        deposit_def validateDepositAmount_def)
  moreover have l: "0 < length (depositors \<lparr>depositors = [bob]\<rparr>)"
    by simp
  moreover from l balance_never_decreases [of _ _ _ "\<lparr>depositors = [bob]\<rparr>" _ _ session]
  have "amount (depositors \<lparr>depositors = [bob]\<rparr> ! 0) \<le>
     amount (depositors (fold perform session \<lparr>depositors = [bob]\<rparr>) ! 0)"
    by blast
  ultimately show ?thesis
    by blast
qed

end
